theory Spec2Isabelle
  imports Main "HOL-Library.Multiset" "HOL-Library.Char_ord" "HOL-Library.List_Lexorder"
begin

section \<open>Values thrown by the handlers\<close>

text \<open>
  The handlers of the server throw JavaScript values.  Three shapes matter to the code
  under study: a plain \<^verbatim>\<open>Error\<close> with its message, a \<^verbatim>\<open>GaxiosError\<close> (a subclass of
  \<^verbatim>\<open>Error\<close>) that may carry the HTTP response of the Google API, and any other thrown
  value, which is represented by the string that \<^verbatim>\<open>String(e)\<close> yields for it.
\<close>

datatype error_field =
    ErrorCode string
  | ErrorDetail int string

record gaxios_data =
  error :: "error_field option"

record gaxios_response =
  status :: int
  data :: "gaxios_data option"

datatype js_thrown =
    JsError string
  | GaxiosError string "gaxios_response option"
  | JsOther string

text \<open>\<^verbatim>\<open>e instanceof Error\<close>: true of \<^verbatim>\<open>Error\<close> and of its subclass \<^verbatim>\<open>GaxiosError\<close>.\<close>

fun instanceofError :: "js_thrown \<Rightarrow> bool" where
  "instanceofError (JsError m) = True"
| "instanceofError (GaxiosError m r) = True"
| "instanceofError (JsOther s) = False"

text \<open>\<^verbatim>\<open>e instanceof Error ? e.message : String(e)\<close> (the server's main module, line 53).\<close>

fun messageOrString :: "js_thrown \<Rightarrow> string" where
  "messageOrString (JsError m) = m"
| "messageOrString (GaxiosError m r) = m"
| "messageOrString (JsOther s) = s"

section \<open>The call-tool request handler (the server's main module)\<close>

record content_item =
  itemType :: string
  itemText :: string

record CallToolResult =
  content :: "content_item list"
  isError :: "bool option"

text \<open>
  The handler registered for \<^verbatim>\<open>CallToolRequestSchema\<close>.  \<^verbatim>\<open>handleCallTool\<close> lives in
  \<^verbatim>\<open>handlers/callTool.js\<close>, which is not part of the sources at hand, so it is a parameter:
  a function that either throws (\<open>Inl\<close>) or returns a result (\<open>Inr\<close>).  The handler
  itself returns \<open>Inr\<close> when it resolves and \<open>Inl\<close> when an exception leaves it.
  The \<^verbatim>\<open>isError\<close> field is commented out in the source, so the envelope does not set it.
\<close>

definition callToolRequestHandler ::
  "('req \<Rightarrow> 'mgr \<Rightarrow> js_thrown + CallToolResult) \<Rightarrow> 'req \<Rightarrow> 'mgr \<Rightarrow> js_thrown + CallToolResult" where
  "callToolRequestHandler handleCallTool request clientManager =
     (case handleCallTool request clientManager of
        Inr result \<Rightarrow> Inr result
      | Inl e \<Rightarrow>
          Inr \<lparr> content = [\<lparr> itemType = ''text'', itemText = ''Error: '' @ messageOrString e \<rparr>],
                isError = None \<rparr>)"

section \<open>The Google API error handler (BaseToolHandler.ts)\<close>

text \<open>
  \<^verbatim>\<open>error instanceof GaxiosError && error.response?.data?.error === 'invalid_grant'\<close>
\<close>

fun isInvalidGrant :: "js_thrown \<Rightarrow> bool" where
  "isInvalidGrant (GaxiosError m (Some r)) =
     (case data r of
        None \<Rightarrow> False
      | Some d \<Rightarrow> error d = Some (ErrorCode ''invalid_grant''))"
| "isInvalidGrant e = False"

definition reauthInstruction :: string where
  "reauthInstruction = ''Please re-run the authentication process (e.g., `npm run auth`).''"

definition invalidTokenMessage :: string where
  "invalidTokenMessage =
     ''Google API Error: Authentication token is invalid or expired. '' @ reauthInstruction"

text \<open>
  \<^verbatim>\<open>handleGoogleApiError\<close> never returns: it throws on both paths.  The model returns the
  value it throws.
\<close>

definition handleGoogleApiError :: "js_thrown \<Rightarrow> js_thrown" where
  "handleGoogleApiError e =
     (if isInvalidGrant e then JsError invalidTokenMessage else e)"

section \<open>OAuth2 client construction (auth/client.ts)\<close>

record process_env =
  GOOGLE_CLIENT_ID :: "string option"
  GOOGLE_CLIENT_SECRET :: "string option"
  GOOGLE_REDIRECT_URIS :: "string option"

record Credentials =
  access_token :: "string option"

record OAuth2Client =
  clientId :: string
  clientSecret :: string
  redirectUri :: string
  credentials :: Credentials

text \<open>\<^verbatim>\<open>s.split(',')\<close>: the pieces between commas; the empty string gives one empty piece.\<close>

fun split_comma :: "string \<Rightarrow> string list" where
  "split_comma [] = [[]]"
| "split_comma (c # cs) =
     (if c = CHR '','' then [] # split_comma cs
      else (case split_comma cs of
              [] \<Rightarrow> [[c]]
            | w # ws \<Rightarrow> (c # w) # ws))"

definition dummyRedirectUri :: string where
  "dummyRedirectUri = ''http://localhost:3000/auth/callback''"

text \<open>
  \<^verbatim>\<open>initializeOAuth2Client\<close>.  \<^verbatim>\<open>!clientId\<close> holds of an unset variable and of the empty
  string.  A fresh \<^verbatim>\<open>OAuth2Client\<close> has empty credentials.
\<close>

definition initializeOAuth2Client :: "process_env \<Rightarrow> js_thrown + OAuth2Client" where
  "initializeOAuth2Client env =
     (let redirectUris = (case GOOGLE_REDIRECT_URIS env of
                            Some s \<Rightarrow> split_comma s
                          | None \<Rightarrow> [])
      in case GOOGLE_CLIENT_ID env of
           None \<Rightarrow> Inl (JsError ''GOOGLE_CLIENT_ID environment variable is required'')
         | Some cid \<Rightarrow>
             if cid = [] then Inl (JsError ''GOOGLE_CLIENT_ID environment variable is required'')
             else (case GOOGLE_CLIENT_SECRET env of
                     None \<Rightarrow> Inl (JsError ''GOOGLE_CLIENT_SECRET environment variable is required'')
                   | Some secret \<Rightarrow>
                       if secret = []
                       then Inl (JsError ''GOOGLE_CLIENT_SECRET environment variable is required'')
                       else Inr \<lparr> clientId = cid, clientSecret = secret,
                                  redirectUri = (case redirectUris of
                                                   [] \<Rightarrow> dummyRedirectUri
                                                 | u # _ \<Rightarrow> u),
                                  credentials = \<lparr> access_token = None \<rparr> \<rparr>))"

section \<open>The client cache (auth/clientManager.ts)\<close>

text \<open>
  \<^verbatim>\<open>clients\<close> is a plain object used as a dictionary.  A client is an object with
  identity, so the cache holds references into a heap of clients; a reference is the
  position of the client in the heap.  Reading \<^verbatim>\<open>this.clients[key]\<close> looks at the object's
  own properties first and then at those every plain object inherits from
  \<^verbatim>\<open>Object.prototype\<close>; the inherited members are functions (or, for \<^verbatim>\<open>__proto__\<close>, the
  prototype object), all of them truthy.
\<close>

datatype js_value =
    ClientRef nat
  | ObjectPrototypeMember string

record manager_state =
  clients :: "string \<rightharpoonup> nat"
  heap :: "OAuth2Client list"

definition objectPrototypeKeys :: "string list" where
  "objectPrototypeKeys =
     [''constructor'', ''__proto__'', ''hasOwnProperty'', ''isPrototypeOf'',
      ''propertyIsEnumerable'', ''toLocaleString'', ''toString'', ''valueOf'',
      ''__defineGetter__'', ''__defineSetter__'', ''__lookupGetter__'', ''__lookupSetter__'']"

definition getProperty :: "(string \<rightharpoonup> nat) \<Rightarrow> string \<Rightarrow> js_value option" where
  "getProperty own key =
     (case own key of
        Some r \<Rightarrow> Some (ClientRef r)
      | None \<Rightarrow>
          if key \<in> set objectPrototypeKeys then Some (ObjectPrototypeMember key) else None)"

text \<open>\<^verbatim>\<open>new ClientManager()\<close>\<close>

definition newClientManager :: manager_state where
  "newClientManager = \<lparr> clients = Map.empty, heap = [] \<rparr>"

text \<open>
  \<^verbatim>\<open>getClient\<close>: the cached value when the lookup is truthy; otherwise a new client is
  built (which may throw), stored under the token, and given the token as its
  credentials.
\<close>

definition getClient ::
  "process_env \<Rightarrow> string \<Rightarrow> manager_state \<Rightarrow> (js_thrown + js_value) \<times> manager_state" where
  "getClient env accessToken s =
     (case getProperty (clients s) accessToken of
        Some cachedClient \<Rightarrow> (Inr cachedClient, s)
      | None \<Rightarrow>
          (case initializeOAuth2Client env of
             Inl e \<Rightarrow> (Inl e, s)
           | Inr client \<Rightarrow>
               let r = length (heap s);
                   s1 = s\<lparr> heap := heap s @ [client] \<rparr>;
                   s2 = s1\<lparr> clients := (clients s1)(accessToken \<mapsto> r) \<rparr>;
                   s3 = s2\<lparr> heap := (heap s2)
                          [r := client\<lparr> credentials := \<lparr> access_token = Some accessToken \<rparr> \<rparr>] \<rparr>
               in (Inr (ClientRef r), s3)))"

text \<open>The state of the manager after a sequence of \<^verbatim>\<open>getClient\<close> calls.\<close>

fun afterCalls :: "process_env \<Rightarrow> string list \<Rightarrow> manager_state \<Rightarrow> manager_state" where
  "afterCalls env [] s = s"
| "afterCalls env (t # ts) s = afterCalls env ts (snd (getClient env t s))"

section \<open>Tool handlers (handlers/core)\<close>

text \<open>
  The argument schemas (\<^verbatim>\<open>schemas/validators.js\<close>) are not among the sources, so
  \<^verbatim>\<open>Schema.parse\<close> is a parameter that throws or returns the validated arguments.  Their
  inferred type has a required string \<^verbatim>\<open>accessToken\<close>; the remaining properties are kept
  as a property map.  \<open>argsObject\<close> is the validated object as it exists at run time.
\<close>

type_synonym js_object = "string \<rightharpoonup> string"

record ValidatedArgs =
  accessToken :: string
  otherFields :: js_object

definition argsObject :: "ValidatedArgs \<Rightarrow> js_object" where
  "argsObject v = (otherFields v)(''accessToken'' \<mapsto> accessToken v)"

text \<open>\<^verbatim>\<open>delete (validArgs as any).accessToken\<close>\<close>

definition deleteProperty :: "string \<Rightarrow> js_object \<Rightarrow> js_object" where
  "deleteProperty key obj = obj(key := None)"

text \<open>
  A call of the Calendar API as the handler issues it: the API method, the client the
  \<^verbatim>\<open>calendar\<close> object was made for (\<^verbatim>\<open>getCalendar(client)\<close>), and the parameter object.
  The outcome of a run keeps the calls in order, each with the state of \<^verbatim>\<open>validArgs\<close>
  at the moment of the call.
\<close>

record api_call =
  apiMethod :: string
  auth :: js_value
  params :: js_object

record 'r outcome =
  result :: "js_thrown + 'r"
  manager :: manager_state
  apiCalls :: "(api_call \<times> js_object) list"

definition textResult :: "string \<Rightarrow> CallToolResult" where
  "textResult t = \<lparr> content = [\<lparr> itemType = ''text'', itemText = t \<rparr>], isError = None \<rparr>"

text \<open>\<^verbatim>\<open>xs.join(sep)\<close>\<close>

fun join :: "string \<Rightarrow> string list \<Rightarrow> string" where
  "join sep [] = []"
| "join sep [x] = x"
| "join sep (x # y # ys) = x @ sep @ join sep (y # ys)"

subsection \<open>DeleteEventHandler.ts\<close>

text \<open>
  \<^verbatim>\<open>deleteEvent\<close>: one \<^verbatim>\<open>calendar.events.delete\<close> call with the two properties it reads
  from its argument; whatever the call throws goes through \<^verbatim>\<open>handleGoogleApiError\<close>.
\<close>

definition eventsDeleteParams :: "js_object \<Rightarrow> js_object" where
  "eventsDeleteParams args = args |` {''calendarId'', ''eventId''}"

definition deleteEvent ::
  "(api_call \<Rightarrow> js_thrown + unit) \<Rightarrow> js_value \<Rightarrow> js_object \<Rightarrow> (js_thrown + unit) \<times> api_call list" where
  "deleteEvent api client args =
     (let call = \<lparr> apiMethod = ''calendar.events.delete'', auth = client,
                   params = eventsDeleteParams args \<rparr>
      in (case api call of
            Inl e \<Rightarrow> Inl (handleGoogleApiError e)
          | Inr u \<Rightarrow> Inr u,
          [call]))"

definition runToolDeleteEvent ::
  "('raw \<Rightarrow> js_thrown + ValidatedArgs) \<Rightarrow> (api_call \<Rightarrow> js_thrown + unit) \<Rightarrow> process_env \<Rightarrow>
   'raw \<Rightarrow> manager_state \<Rightarrow> CallToolResult outcome" where
  "runToolDeleteEvent parse api env args clientManager =
     (case parse args of
        Inl e \<Rightarrow> \<lparr> result = Inl e, manager = clientManager, apiCalls = [] \<rparr>
      | Inr v \<Rightarrow>
          let token = accessToken v;
              validArgs = deleteProperty ''accessToken'' (argsObject v)
          in (case getClient env token clientManager of
                (Inl e, m) \<Rightarrow> \<lparr> result = Inl e, manager = m, apiCalls = [] \<rparr>
              | (Inr oauth2Client, m) \<Rightarrow>
                  (case deleteEvent api oauth2Client validArgs of
                     (Inl e, calls) \<Rightarrow>
                       \<lparr> result = Inl e, manager = m,
                         apiCalls = map (\<lambda>c. (c, validArgs)) calls \<rparr>
                   | (Inr u, calls) \<Rightarrow>
                       \<lparr> result = Inr (textResult ''Event deleted successfully''), manager = m,
                         apiCalls = map (\<lambda>c. (c, validArgs)) calls \<rparr>)))"

subsection \<open>ListCalendarsHandler.ts\<close>

record CalendarListEntry =
  summary :: "string option"
  calendarEntryId :: "string option"

text \<open>\<^verbatim>\<open>s || fallback\<close> on an optional string: the fallback replaces a missing or empty one.\<close>

definition orElse :: "string option \<Rightarrow> string \<Rightarrow> string" where
  "orElse s fallback = (case s of None \<Rightarrow> fallback | Some x \<Rightarrow> if x = [] then fallback else x)"

definition formatCalendarList :: "CalendarListEntry list \<Rightarrow> string" where
  "formatCalendarList calendars =
     join [CHR 0x0A]
       (map (\<lambda>cal. orElse (summary cal) ''Untitled'' @ '' ('' @
                    orElse (calendarEntryId cal) ''no-id'' @ '')'') calendars)"

text \<open>
  \<^verbatim>\<open>listCalendars\<close>: one \<^verbatim>\<open>calendar.calendarList.list()\<close> call without parameters; the API
  parameter yields \<^verbatim>\<open>response.data.items\<close>, which may be missing.
\<close>

definition listCalendars ::
  "(api_call \<Rightarrow> js_thrown + CalendarListEntry list option) \<Rightarrow> js_value \<Rightarrow>
   (js_thrown + CalendarListEntry list) \<times> api_call list" where
  "listCalendars api client =
     (let call = \<lparr> apiMethod = ''calendar.calendarList.list'', auth = client,
                   params = Map.empty \<rparr>
      in (case api call of
            Inl e \<Rightarrow> Inl (handleGoogleApiError e)
          | Inr items \<Rightarrow> Inr (case items of None \<Rightarrow> [] | Some xs \<Rightarrow> xs),
          [call]))"

definition runToolListCalendars ::
  "('raw \<Rightarrow> js_thrown + ValidatedArgs) \<Rightarrow> (api_call \<Rightarrow> js_thrown + CalendarListEntry list option) \<Rightarrow>
   process_env \<Rightarrow> 'raw \<Rightarrow> manager_state \<Rightarrow> CallToolResult outcome" where
  "runToolListCalendars parse api env args clientManager =
     (case parse args of
        Inl e \<Rightarrow> \<lparr> result = Inl e, manager = clientManager, apiCalls = [] \<rparr>
      | Inr v \<Rightarrow>
          let token = accessToken v;
              validArgs = deleteProperty ''accessToken'' (argsObject v)
          in (case getClient env token clientManager of
                (Inl e, m) \<Rightarrow> \<lparr> result = Inl e, manager = m, apiCalls = [] \<rparr>
              | (Inr oauth2Client, m) \<Rightarrow>
                  (case listCalendars api oauth2Client of
                     (Inl e, calls) \<Rightarrow>
                       \<lparr> result = Inl e, manager = m,
                         apiCalls = map (\<lambda>c. (c, validArgs)) calls \<rparr>
                   | (Inr calendars, calls) \<Rightarrow>
                       \<lparr> result = Inr (textResult (formatCalendarList calendars)), manager = m,
                         apiCalls = map (\<lambda>c. (c, validArgs)) calls \<rparr>)))"

subsection \<open>ListColorsHandler.ts\<close>

record ColorDefinition =
  background :: "string option"
  foreground :: "string option"

record Colors =
  event :: "(string \<times> ColorDefinition) list option"

text \<open>A template literal prints a missing property as \<^verbatim>\<open>undefined\<close>.\<close>

definition template :: "string option \<Rightarrow> string" where
  "template s = (case s of None \<Rightarrow> ''undefined'' | Some x \<Rightarrow> x)"

definition formatColorList :: "Colors \<Rightarrow> string" where
  "formatColorList colors =
     (let eventColors = (case event colors of None \<Rightarrow> [] | Some es \<Rightarrow> es)
      in join [CHR 0x0A]
           (map (\<lambda>(cid, colorInfo).
                   ''Color ID: '' @ cid @ '' - '' @ template (background colorInfo) @
                   '' (background) / '' @ template (foreground colorInfo) @ '' (foreground)'')
                eventColors))"

text \<open>
  \<^verbatim>\<open>listColors\<close>: one \<^verbatim>\<open>calendar.colors.get()\<close> call; a response without data throws
  inside the \<^verbatim>\<open>try\<close>, so that error too goes through \<^verbatim>\<open>handleGoogleApiError\<close>.
\<close>

definition listColors ::
  "(api_call \<Rightarrow> js_thrown + Colors option) \<Rightarrow> js_value \<Rightarrow> (js_thrown + Colors) \<times> api_call list" where
  "listColors api client =
     (let call = \<lparr> apiMethod = ''calendar.colors.get'', auth = client, params = Map.empty \<rparr>
      in (case api call of
            Inl e \<Rightarrow> Inl (handleGoogleApiError e)
          | Inr None \<Rightarrow> Inl (handleGoogleApiError (JsError ''Failed to retrieve colors''))
          | Inr (Some d) \<Rightarrow> Inr d,
          [call]))"

definition runToolListColors ::
  "('raw \<Rightarrow> js_thrown + ValidatedArgs) \<Rightarrow> (api_call \<Rightarrow> js_thrown + Colors option) \<Rightarrow>
   process_env \<Rightarrow> 'raw \<Rightarrow> manager_state \<Rightarrow> CallToolResult outcome" where
  "runToolListColors parse api env args clientManager =
     (case parse args of
        Inl e \<Rightarrow> \<lparr> result = Inl e, manager = clientManager, apiCalls = [] \<rparr>
      | Inr v \<Rightarrow>
          let token = accessToken v;
              validArgs = deleteProperty ''accessToken'' (argsObject v)
          in (case getClient env token clientManager of
                (Inl e, m) \<Rightarrow> \<lparr> result = Inl e, manager = m, apiCalls = [] \<rparr>
              | (Inr oauth2Client, m) \<Rightarrow>
                  (case listColors api oauth2Client of
                     (Inl e, calls) \<Rightarrow>
                       \<lparr> result = Inl e, manager = m,
                         apiCalls = map (\<lambda>c. (c, validArgs)) calls \<rparr>
                   | (Inr colors, calls) \<Rightarrow>
                       \<lparr> result = Inr (textResult (''Available event colors:'' @ [CHR 0x0A] @
                                                   formatColorList colors)),
                         manager = m,
                         apiCalls = map (\<lambda>c. (c, validArgs)) calls \<rparr>)))"

section \<open>Batch event listing (handlers/core/BatchListEvents.test.ts)\<close>

text \<open>
  The batch subsystem is present in the sources through its test file, which carries
  the request construction, the response processing and the sort as inline code.  The
  definitions of this section are translations of that code.
\<close>

subsection \<open>Events and batch sub-responses\<close>

record EventDateTime =
  dateTime :: "string option"
  date :: "string option"

record Event =
  eventId :: "string option"
  eventSummary :: "string option"
  eventStart :: "EventDateTime option"
  eventEnd :: "EventDateTime option"
  eventLocation :: "string option"
  calendarId :: "string option"

record ApiError =
  code :: int
  message :: string

record ResponseBody =
  items :: "Event list option"
  bodyError :: "ApiError option"

record SubResponse =
  statusCode :: int
  headers :: "(string \<times> string) list"
  body :: ResponseBody

record CalendarError =
  errorCalendarId :: "string option"
  errorBody :: ResponseBody

record BatchOutcome =
  allEvents :: "Event list"
  errors :: "CalendarError list"

subsection \<open>Processing the batch responses (lines 301-316 and 372-387)\<close>

text \<open>\<^verbatim>\<open>xs[i]\<close>: \<^verbatim>\<open>undefined\<close> beyond the end of the array.\<close>

fun at_index :: "'a list \<Rightarrow> nat \<Rightarrow> 'a option" where
  "at_index [] i = None"
| "at_index (x # xs) 0 = Some x"
| "at_index (x # xs) (Suc i) = at_index xs i"

text \<open>\<^verbatim>\<open>({ ...event, calendarId })\<close>: a copy of the event with the tag set.\<close>

definition tagEvent :: "string option \<Rightarrow> Event \<Rightarrow> Event" where
  "tagEvent cid ev = ev\<lparr> calendarId := cid \<rparr>"

text \<open>
  The body of the \<^verbatim>\<open>forEach\<close> callback.  An array is truthy even when empty, so
  \<^verbatim>\<open>response.body.items\<close> holds exactly when the property is there.
\<close>

definition processResponse :: "string list \<Rightarrow> SubResponse \<Rightarrow> nat \<Rightarrow> BatchOutcome \<Rightarrow> BatchOutcome" where
  "processResponse calendarIds response index acc =
     (let cid = at_index calendarIds index
      in if statusCode response = 200 \<and> items (body response) \<noteq> None
         then acc\<lparr> allEvents := allEvents acc @
                     map (tagEvent cid) (case items (body response) of Some its \<Rightarrow> its | None \<Rightarrow> []) \<rparr>
         else acc\<lparr> errors := errors acc @ [\<lparr> errorCalendarId = cid, errorBody = body response \<rparr>] \<rparr>)"

text \<open>\<^verbatim>\<open>responses.forEach((response, index) => ...)\<close>, from position \<open>index\<close> on.\<close>

fun forEachResponse :: "string list \<Rightarrow> nat \<Rightarrow> SubResponse list \<Rightarrow> BatchOutcome \<Rightarrow> BatchOutcome" where
  "forEachResponse calendarIds index [] acc = acc"
| "forEachResponse calendarIds index (response # rest) acc =
     forEachResponse calendarIds (Suc index) rest (processResponse calendarIds response index acc)"

definition mergeResponses :: "string list \<Rightarrow> SubResponse list \<Rightarrow> BatchOutcome" where
  "mergeResponses calendarIds responses =
     forEachResponse calendarIds 0 responses \<lparr> allEvents = [], errors = [] \<rparr>"

text \<open>
  What one position contributes, in the words of the claim with the status test of the
  code: the tagged items of a response with status 200 and an items list, and one error
  entry for any other response.
\<close>

definition eventsOf :: "string \<Rightarrow> SubResponse \<Rightarrow> Event list" where
  "eventsOf cid response =
     (case items (body response) of
        Some its \<Rightarrow> if statusCode response = 200 then map (tagEvent (Some cid)) its else []
      | None \<Rightarrow> [])"

definition errorsOf :: "string \<Rightarrow> SubResponse \<Rightarrow> CalendarError list" where
  "errorsOf cid response =
     (case items (body response) of
        Some its \<Rightarrow>
          if statusCode response = 200 then []
          else [\<lparr> errorCalendarId = Some cid, errorBody = body response \<rparr>]
      | None \<Rightarrow> [\<lparr> errorCalendarId = Some cid, errorBody = body response \<rparr>])"

subsection \<open>Sorting by start time (lines 468-472 and 539-543)\<close>

text \<open>\<^verbatim>\<open>a.start?.dateTime || a.start?.date || ''\<close>\<close>

definition startKey :: "Event \<Rightarrow> string" where
  "startKey a =
     (case eventStart a of
        None \<Rightarrow> []
      | Some s \<Rightarrow> orElse (dateTime s) (orElse (date s) []))"

text \<open>
  The comparator of the sort, \<^verbatim>\<open>aStart.localeCompare(bStart)\<close>.
  \<^verbatim>\<open>String.prototype.localeCompare\<close> is a builtin of the JavaScript runtime: it compares by
  the collation of the host's locale, not by character codes, so it is a parameter of
  the model.
\<close>

definition compareStart :: "(string \<Rightarrow> string \<Rightarrow> int) \<Rightarrow> Event \<Rightarrow> Event \<Rightarrow> int" where
  "compareStart localeCompare a b = localeCompare (startKey a) (startKey b)"

text \<open>
  \<^verbatim>\<open>Array.prototype.sort(compare)\<close> is a stable sort: an element is placed before the
  first element that does not compare below it, and elements are inserted from the last
  to the first, so equal elements keep their order.
\<close>

fun insertBy :: "('a \<Rightarrow> 'a \<Rightarrow> int) \<Rightarrow> 'a \<Rightarrow> 'a list \<Rightarrow> 'a list" where
  "insertBy compare x [] = [x]"
| "insertBy compare x (y # ys) =
     (if compare x y \<le> 0 then x # y # ys else y # insertBy compare x ys)"

definition arraySort :: "('a \<Rightarrow> 'a \<Rightarrow> int) \<Rightarrow> 'a list \<Rightarrow> 'a list" where
  "arraySort compare xs = foldr (insertBy compare) xs []"

definition sortEvents :: "(string \<Rightarrow> string \<Rightarrow> int) \<Rightarrow> Event list \<Rightarrow> Event list" where
  "sortEvents localeCompare evs = arraySort (compareStart localeCompare) evs"

text \<open>
  What the language standard requires of \<^verbatim>\<open>localeCompare\<close>: it is a consistent
  comparator, that is, a string compares equal to itself, the sign of the result
  flips when the arguments are swapped, and the order is transitive.
\<close>

definition consistentComparator :: "('a \<Rightarrow> 'a \<Rightarrow> int) \<Rightarrow> bool" where
  "consistentComparator compare \<longleftrightarrow>
     (\<forall>a. compare a a = 0) \<and>
     (\<forall>a b. (compare a b < 0) = (0 < compare b a)) \<and>
     (\<forall>a b c. compare a b \<le> 0 \<and> compare b c \<le> 0 \<longrightarrow> compare a c \<le> 0)"

text \<open>
  The collation of the runtime on the characters of an ISO-8601 date-time: the
  punctuation \<^verbatim>\<open>- : .\<close> ranks first, then the sign \<^verbatim>\<open>+\<close>, then the digits, then the
  letters \<^verbatim>\<open>T\<close> and \<^verbatim>\<open>Z\<close>; strings over these characters are compared rank by rank, a
  proper prefix first.  (By character code, \<^verbatim>\<open>+\<close> comes before \<^verbatim>\<open>-\<close> and \<^verbatim>\<open>:\<close> after the
  digits.)  Other characters are ranked after these by their code; that part does not
  follow the runtime and no statement uses it.
\<close>

definition collationRank :: "char \<Rightarrow> nat" where
  "collationRank c =
     (if c = CHR ''-'' then 0
      else if c = CHR '':'' then 1
      else if c = CHR ''.'' then 2
      else if c = CHR ''+'' then 3
      else if c \<in> set ''0123456789'' then of_char c - 44
      else if c = CHR ''T'' then 14
      else if c = CHR ''Z'' then 15
      else 16 + of_char c)"

definition collationCompare :: "string \<Rightarrow> string \<Rightarrow> int" where
  "collationCompare a b =
     (if map collationRank a < map collationRank b then - 1
      else if map collationRank a = map collationRank b then 0
      else 1)"

text \<open>
  The key as the claim words it: \<^verbatim>\<open>start.dateTime\<close> if present, else \<^verbatim>\<open>start.date\<close>,
  else the empty string.
\<close>

definition presentKey :: "Event \<Rightarrow> string" where
  "presentKey a =
     (case eventStart a of
        None \<Rightarrow> []
      | Some s \<Rightarrow>
          (case dateTime s of
             Some t \<Rightarrow> t
           | None \<Rightarrow> (case date s of Some d \<Rightarrow> d | None \<Rightarrow> [])))"

text \<open>Every occurrence of \<open>a\<close> in the list lies before every occurrence of \<open>b\<close>.\<close>

definition placedBefore :: "'a \<Rightarrow> 'a \<Rightarrow> 'a list \<Rightarrow> bool" where
  "placedBefore a b xs \<longleftrightarrow>
     (\<forall>i < length xs. \<forall>j < length xs. xs ! i = a \<and> xs ! j = b \<longrightarrow> i < j)"

subsection \<open>Building the batch request (lines 216-225, 246-254 and 690-699)\<close>


















section \<open>Predicates of the statements\<close>

text \<open>
  The invariant of the cache for a configured environment: every cached reference
  points into the heap, at the client built from the environment with the token of its
  key as credentials.
\<close>

definition cacheInv :: "OAuth2Client \<Rightarrow> manager_state \<Rightarrow> bool" where
  "cacheInv c0 s \<longleftrightarrow>
     (\<forall>t r. clients s t = Some r \<longrightarrow>
        r < length (heap s) \<and>
        heap s ! r = c0\<lparr> credentials := \<lparr> access_token = Some t \<rparr> \<rparr>)"

text \<open>
  At each recorded API call the argument object has lost \<^verbatim>\<open>accessToken\<close> and nothing
  else, and the parameters of the call carry no \<^verbatim>\<open>accessToken\<close>.
\<close>

definition tokenRemoved :: "ValidatedArgs \<Rightarrow> (api_call \<times> js_object) list \<Rightarrow> bool" where
  "tokenRemoved v calls \<longleftrightarrow>
     (\<forall>(call, validArgs) \<in> set calls.
        validArgs ''accessToken'' = None \<and>
        (\<forall>k. k \<noteq> ''accessToken'' \<longrightarrow> validArgs k = argsObject v k) \<and>
        params call ''accessToken'' = None)"

section \<open>Concrete inputs\<close>

definition okEnv :: process_env where
  "okEnv = \<lparr> GOOGLE_CLIENT_ID = Some ''id.apps.googleusercontent.com'',
             GOOGLE_CLIENT_SECRET = Some ''secret'',
             GOOGLE_REDIRECT_URIS = None \<rparr>"

definition emptyEnv :: process_env where
  "emptyEnv = \<lparr> GOOGLE_CLIENT_ID = None, GOOGLE_CLIENT_SECRET = None,
                GOOGLE_REDIRECT_URIS = None \<rparr>"

definition expiredTokenError :: js_thrown where
  "expiredTokenError =
     GaxiosError ''invalid_grant''
       (Some \<lparr> status = 400, data = Some \<lparr> error = Some (ErrorCode ''invalid_grant'') \<rparr> \<rparr>)"

definition notFoundError :: js_thrown where
  "notFoundError =
     GaxiosError ''Not Found''
       (Some \<lparr> status = 404, data = Some \<lparr> error = Some (ErrorDetail 404 ''Not Found'') \<rparr> \<rparr>)"

definition timedEvent :: "string \<Rightarrow> string \<Rightarrow> Event" where
  "timedEvent i t =
     \<lparr> eventId = Some i, eventSummary = None,
       eventStart = Some \<lparr> dateTime = Some t, date = None \<rparr>,
       eventEnd = None, eventLocation = None, calendarId = None \<rparr>"

definition allDayEvent :: "string \<Rightarrow> string \<Rightarrow> Event" where
  "allDayEvent i d =
     \<lparr> eventId = Some i, eventSummary = None,
       eventStart = Some \<lparr> dateTime = None, date = Some d \<rparr>,
       eventEnd = None, eventLocation = None, calendarId = None \<rparr>"

definition emptyDateTimeEvent :: "string \<Rightarrow> string \<Rightarrow> Event" where
  "emptyDateTimeEvent i d =
     \<lparr> eventId = Some i, eventSummary = None,
       eventStart = Some \<lparr> dateTime = Some [], date = Some d \<rparr>,
       eventEnd = None, eventLocation = None, calendarId = None \<rparr>"

definition itemsResponse :: "int \<Rightarrow> Event list \<Rightarrow> SubResponse" where
  "itemsResponse st evs =
     \<lparr> statusCode = st, headers = [], body = \<lparr> items = Some evs, bodyError = None \<rparr> \<rparr>"

definition errorResponse :: "int \<Rightarrow> string \<Rightarrow> SubResponse" where
  "errorResponse st msg =
     \<lparr> statusCode = st, headers = [],
       body = \<lparr> items = None, bodyError = Some \<lparr> code = st, message = msg \<rparr> \<rparr> \<rparr>"

definition sampleDeleteArgs :: ValidatedArgs where
  "sampleDeleteArgs =
     \<lparr> accessToken = ''ya29.token'',
       otherFields = [''calendarId'' \<mapsto> ''primary'', ''eventId'' \<mapsto> ''ev1''] \<rparr>"


definition unauthorizedError :: js_thrown where
  "unauthorizedError =
     GaxiosError ''Invalid Credentials''
       (Some \<lparr> status = 401,
               data = Some \<lparr> error = Some (ErrorDetail 401 ''Invalid Credentials'') \<rparr> \<rparr>)"

section \<open>The handler boundary\<close>

text \<open>
  Claim C7.  Whatever \<^verbatim>\<open>handleCallTool\<close> does, the call-tool request handler resolves
  with a result and never throws.  When \<^verbatim>\<open>handleCallTool\<close> throws \<open>e\<close>, the result is
  an envelope without \<^verbatim>\<open>isError\<close> whose content is a single text item reading
  \<^verbatim>\<open>Error: \<close> followed by the message of \<open>e\<close> when \<open>e\<close> is an \<^verbatim>\<open>Error\<close>, and by the
  string form of \<open>e\<close> otherwise.  (Thrown values are represented by their message or
  string form, so a value whose conversion to a string itself throws is outside the
  model.)
\<close>

theorem callTool_errors_as_text:
  "(\<exists>r. callToolRequestHandler h req m = Inr r) \<and>
   (h req m = Inl e \<longrightarrow>
      callToolRequestHandler h req m =
        Inr \<lparr> content = [\<lparr> itemType = ''text'', itemText = ''Error: '' @ messageOrString e \<rparr>],
              isError = None \<rparr>) \<and>
   (instanceofError e \<longrightarrow> (\<exists>msg r. (e = JsError msg \<or> e = GaxiosError msg r) \<and> messageOrString e = msg)) \<and>
   (\<not> instanceofError e \<longrightarrow> (\<exists>s. e = JsOther s \<and> messageOrString e = s))"
  by (cases e) (auto simp: callToolRequestHandler_def split: sum.splits)

text \<open>
  The theorem at two thrown values: an \<^verbatim>\<open>Error\<close> with a message, and the number 42.
\<close>

theorem callTool_errors_as_text_example:
  "callToolRequestHandler (\<lambda>req m. Inl (JsError ''Invalid arguments'')) (0::nat) () =
     Inr \<lparr> content = [\<lparr> itemType = ''text'', itemText = ''Error: Invalid arguments'' \<rparr>], isError = None \<rparr> \<and>
   callToolRequestHandler (\<lambda>req m. Inl (JsOther ''42'')) (0::nat) () =
     Inr \<lparr> content = [\<lparr> itemType = ''text'', itemText = ''Error: 42'' \<rparr>], isError = None \<rparr>"
  using callTool_errors_as_text [of "\<lambda>req m. Inl (JsError ''Invalid arguments'')" "0::nat" "()" "JsError ''Invalid arguments''"]
        callTool_errors_as_text [of "\<lambda>req m. Inl (JsOther ''42'')" "0::nat" "()" "JsOther ''42''"]
  by simp

section \<open>Google API errors\<close>

lemma handleGoogleApiError_cases:
  "(isInvalidGrant e \<longrightarrow>
      handleGoogleApiError e =
        JsError (''Google API Error: Authentication token is invalid or expired. '' @ reauthInstruction)) \<and>
   (\<not> isInvalidGrant e \<longrightarrow> handleGoogleApiError e = e)"
  by (simp add: handleGoogleApiError_def invalidTokenMessage_def)

lemma deleteEvent_one_call:
  "\<exists>call. snd (deleteEvent api client args) = [call] \<and>
     (api call = Inl e \<longrightarrow> fst (deleteEvent api client args) = Inl (handleGoogleApiError e))"
  by (simp add: deleteEvent_def Let_def)

lemma listCalendars_one_call:
  "\<exists>call. snd (listCalendars api client) = [call] \<and>
     (api call = Inl e \<longrightarrow> fst (listCalendars api client) = Inl (handleGoogleApiError e))"
  by (simp add: listCalendars_def Let_def)

lemma listColors_one_call:
  "\<exists>call. snd (listColors api client) = [call] \<and>
     (api call = Inl e \<longrightarrow> fst (listColors api client) = Inl (handleGoogleApiError e))"
  by (simp add: listColors_def Let_def)

text \<open>
  What the handler does: for a \<^verbatim>\<open>GaxiosError\<close> whose response data has
  \<^verbatim>\<open>error === 'invalid_grant'\<close> it throws an \<^verbatim>\<open>Error\<close> whose message ends with the
  instruction to re-run the authentication process; every other error is thrown again
  unchanged.  The three API methods of the handlers at hand issue exactly one API call
  each, also when the call fails, and pass its error through \<^verbatim>\<open>handleGoogleApiError\<close>:
  nothing is retried.
\<close>

lemma handleGoogleApiError_reauth:
  "(isInvalidGrant e \<longrightarrow>
      handleGoogleApiError e =
        JsError (''Google API Error: Authentication token is invalid or expired. '' @ reauthInstruction)) \<and>
   (\<not> isInvalidGrant e \<longrightarrow> handleGoogleApiError e = e) \<and>
   (\<exists>call. snd (deleteEvent api1 client args) = [call] \<and>
      (api1 call = Inl e \<longrightarrow> fst (deleteEvent api1 client args) = Inl (handleGoogleApiError e))) \<and>
   (\<exists>call. snd (listCalendars api2 client) = [call] \<and>
      (api2 call = Inl e \<longrightarrow> fst (listCalendars api2 client) = Inl (handleGoogleApiError e))) \<and>
   (\<exists>call. snd (listColors api3 client) = [call] \<and>
      (api3 call = Inl e \<longrightarrow> fst (listColors api3 client) = Inl (handleGoogleApiError e)))"
  using handleGoogleApiError_cases [of e] deleteEvent_one_call [of api1 client args e]
    listCalendars_one_call [of api2 client e] listColors_one_call [of api3 client e]
  by blast

text \<open>
  The lemma at an \<^verbatim>\<open>invalid_grant\<close> error and at a 404 error.
\<close>

lemma handleGoogleApiError_reauth_example:
  "isInvalidGrant expiredTokenError \<and>
   handleGoogleApiError expiredTokenError =
     JsError ''Google API Error: Authentication token is invalid or expired. Please re-run the authentication process (e.g., `npm run auth`).'' \<and>
   \<not> isInvalidGrant notFoundError \<and>
   handleGoogleApiError notFoundError = notFoundError \<and>
   deleteEvent (\<lambda>c. Inl expiredTokenError) (ClientRef 0) Map.empty =
     (Inl (JsError invalidTokenMessage),
      [\<lparr> apiMethod = ''calendar.events.delete'', auth = ClientRef 0, params = Map.empty \<rparr>])"
  using handleGoogleApiError_reauth [of expiredTokenError "\<lambda>c. Inl expiredTokenError" "ClientRef 0" Map.empty
      "\<lambda>c. Inl expiredTokenError" "\<lambda>c. Inl expiredTokenError"]
    handleGoogleApiError_reauth [of notFoundError "\<lambda>c. Inl notFoundError" "ClientRef 0" Map.empty
      "\<lambda>c. Inl notFoundError" "\<lambda>c. Inl notFoundError"]
  by (simp add: expiredTokenError_def notFoundError_def reauthInstruction_def deleteEvent_def
        eventsDeleteParams_def invalidTokenMessage_def handleGoogleApiError_def)

text \<open>
  Claim C8.  The claim promises the re-authentication instruction whenever an API call
  fails because the token is invalid or expired.  The client manager gives a client
  nothing but the access token, so the Calendar API answers such a token with status
  401, and the \<^verbatim>\<open>error\<close> property of the response data is then an object, not the
  string \<^verbatim>\<open>invalid_grant\<close>.  At that error the handler does not recognise the failure:
  it throws the error again unchanged, \<^verbatim>\<open>deleteEvent\<close> passes it on after its one
  API call, and the text the user gets is \<^verbatim>\<open>Error: Invalid Credentials\<close>, without the
  instruction that the handler's own message reserves for invalid or expired tokens.
\<close>

theorem handleGoogleApiError_unauthorized:
  "\<not> isInvalidGrant unauthorizedError \<and>
   handleGoogleApiError unauthorizedError = unauthorizedError \<and>
   messageOrString (handleGoogleApiError unauthorizedError) = ''Invalid Credentials'' \<and>
   deleteEvent (\<lambda>call. Inl unauthorizedError) (ClientRef 0) Map.empty =
     (Inl unauthorizedError,
      [\<lparr> apiMethod = ''calendar.events.delete'', auth = ClientRef 0, params = Map.empty \<rparr>]) \<and>
   callToolRequestHandler
     (\<lambda>request manager. Inl (handleGoogleApiError unauthorizedError)) () () =
     Inr (textResult ''Error: Invalid Credentials'')"
  by (simp add: unauthorizedError_def handleGoogleApiError_def deleteEvent_def
        eventsDeleteParams_def callToolRequestHandler_def textResult_def)

section \<open>The client cache\<close>

lemma initializeOAuth2Client_ok:
  assumes "GOOGLE_CLIENT_ID env = Some cid" "cid \<noteq> []"
    and "GOOGLE_CLIENT_SECRET env = Some secret" "secret \<noteq> []"
  shows "\<exists>uri. initializeOAuth2Client env =
           Inr \<lparr> clientId = cid, clientSecret = secret, redirectUri = uri,
                 credentials = \<lparr> access_token = None \<rparr> \<rparr>"
  using assms by (simp add: initializeOAuth2Client_def Let_def)

lemma getClient_hit:
  "clients s t = Some r \<Longrightarrow> getClient env t s = (Inr (ClientRef r), s)"
  by (simp add: getClient_def getProperty_def)

lemma getClient_miss:
  assumes "initializeOAuth2Client env = Inr c0" "t \<notin> set objectPrototypeKeys" "clients s t = None"
  shows "getClient env t s =
           (Inr (ClientRef (length (heap s))),
            \<lparr> clients = (clients s)(t \<mapsto> length (heap s)),
              heap = heap s @ [c0\<lparr> credentials := \<lparr> access_token = Some t \<rparr> \<rparr>] \<rparr>)"
  using assms by (simp add: getClient_def getProperty_def Let_def)

lemma getClient_keeps:
  assumes "clients s t = Some r" "r < length (heap s)"
  shows "clients (snd (getClient env t' s)) t = Some r \<and>
         r < length (heap (snd (getClient env t' s))) \<and>
         heap (snd (getClient env t' s)) ! r = heap s ! r"
  using assms
  by (auto simp: getClient_def getProperty_def Let_def nth_append
           split: option.splits sum.splits if_splits)

lemma afterCalls_keeps:
  assumes "clients s t = Some r" "r < length (heap s)"
  shows "clients (afterCalls env ts s) t = Some r \<and>
         r < length (heap (afterCalls env ts s)) \<and>
         heap (afterCalls env ts s) ! r = heap s ! r"
  using assms
proof (induction ts arbitrary: s)
  case Nil
  then show ?case by simp
next
  case (Cons t' ts)
  from getClient_keeps [OF Cons.prems, of env t']
  have k: "clients (snd (getClient env t' s)) t = Some r"
    "r < length (heap (snd (getClient env t' s)))"
    "heap (snd (getClient env t' s)) ! r = heap s ! r"
    by simp_all
  from Cons.IH [OF k(1) k(2)] k(3) show ?case by simp
qed

lemma cacheInv_getClient:
  assumes init: "initializeOAuth2Client env = Inr c0" and inv: "cacheInv c0 s"
  shows "cacheInv c0 (snd (getClient env t s))"
proof (cases "getProperty (clients s) t")
  case (Some v)
  with inv show ?thesis by (simp add: getClient_def)
next
  case None
  then have miss: "clients s t = None"
    by (simp add: getProperty_def split: option.splits)
  let ?r = "length (heap s)"
  let ?c = "c0\<lparr> credentials := \<lparr> access_token = Some t \<rparr> \<rparr>"
  have st: "snd (getClient env t s) = \<lparr> clients = (clients s)(t \<mapsto> ?r), heap = heap s @ [?c] \<rparr>"
    using None init by (simp add: getClient_def Let_def)
  show ?thesis
    unfolding cacheInv_def st
  proof (intro allI impI)
    fix t' r
    assume a: "clients \<lparr> clients = (clients s)(t \<mapsto> ?r), heap = heap s @ [?c] \<rparr> t' = Some r"
    show "r < length (heap \<lparr> clients = (clients s)(t \<mapsto> ?r), heap = heap s @ [?c] \<rparr>) \<and>
          heap \<lparr> clients = (clients s)(t \<mapsto> ?r), heap = heap s @ [?c] \<rparr> ! r =
            c0\<lparr> credentials := \<lparr> access_token = Some t' \<rparr> \<rparr>"
    proof (cases "t' = t")
      case True
      with a have "r = length (heap s)" by simp
      with True show ?thesis by simp
    next
      case False
      with a have "clients s t' = Some r" by simp
      with inv have "r < length (heap s)"
        "heap s ! r = c0\<lparr> credentials := \<lparr> access_token = Some t' \<rparr> \<rparr>"
        by (simp_all add: cacheInv_def)
      then show ?thesis by (simp add: nth_append)
    qed
  qed
qed

lemma cacheInv_afterCalls:
  assumes "initializeOAuth2Client env = Inr c0" "cacheInv c0 s"
  shows "cacheInv c0 (afterCalls env ts s)"
  using assms(2)
  by (induction ts arbitrary: s) (simp_all add: cacheInv_getClient [OF assms(1)])

lemma dom_getClient: "dom (clients (snd (getClient env t s))) \<subseteq> insert t (dom (clients s))"
  by (auto simp: getClient_def getProperty_def Let_def split: option.splits sum.splits if_splits)

lemma dom_afterCalls: "dom (clients (afterCalls env ts s)) \<subseteq> set ts \<union> dom (clients s)"
proof (induction ts arbitrary: s)
  case Nil
  then show ?case by simp
next
  case (Cons t ts)
  from Cons.IH [of "snd (getClient env t s)"] dom_getClient [of env t s]
  show ?case by auto
qed

text \<open>
  Claim C9, amended.  Let the variables \<^verbatim>\<open>GOOGLE_CLIENT_ID\<close> and
  \<^verbatim>\<open>GOOGLE_CLIENT_SECRET\<close> be set to non-empty strings and let the token \<open>t\<close> not be the
  name of a member that plain objects inherit from \<^verbatim>\<open>Object.prototype\<close>.  Then, in the
  state reached from a new manager by any sequence \<open>before\<close> of \<^verbatim>\<open>getClient\<close> calls,
  \<^verbatim>\<open>getClient(t)\<close> returns a reference \<open>r\<close> to a client that is cached under \<open>t\<close> and
  carries \<open>t\<close> as its access token; when \<open>t\<close> was not asked for before, the client is
  a new object appended to the heap; and after any further sequence \<open>later\<close> of calls,
  \<^verbatim>\<open>getClient(t)\<close> returns the same reference, leaves the manager as it is, and the
  client is unchanged.
\<close>

theorem getClient_memoized:
  assumes env: "GOOGLE_CLIENT_ID env = Some cid" "cid \<noteq> []"
               "GOOGLE_CLIENT_SECRET env = Some secret" "secret \<noteq> []"
    and key: "t \<notin> set objectPrototypeKeys"
  shows "\<exists>r s1 client.
           getClient env t (afterCalls env before newClientManager) = (Inr (ClientRef r), s1) \<and>
           clients s1 t = Some r \<and> r < length (heap s1) \<and> heap s1 ! r = client \<and>
           clientId client = cid \<and> clientSecret client = secret \<and>
           credentials client = \<lparr> access_token = Some t \<rparr> \<and>
           (t \<notin> set before \<longrightarrow>
              r = length (heap (afterCalls env before newClientManager)) \<and>
              heap s1 = heap (afterCalls env before newClientManager) @ [client] \<and>
              clients s1 = (clients (afterCalls env before newClientManager))(t \<mapsto> r)) \<and>
           (\<forall>later.
              getClient env t (afterCalls env later s1) = (Inr (ClientRef r), afterCalls env later s1) \<and>
              heap (afterCalls env later s1) ! r = client)"
proof -
  from initializeOAuth2Client_ok [OF env] obtain uri where
    init: "initializeOAuth2Client env =
             Inr \<lparr> clientId = cid, clientSecret = secret, redirectUri = uri,
                   credentials = \<lparr> access_token = None \<rparr> \<rparr>" (is "_ = Inr ?base")
    by blast
  let ?s = "afterCalls env before newClientManager"
  let ?cl = "?base\<lparr> credentials := \<lparr> access_token = Some t \<rparr> \<rparr>"
  have inv0: "cacheInv ?base newClientManager"
    by (simp add: cacheInv_def newClientManager_def)
  have inv: "cacheInv ?base ?s"
    by (rule cacheInv_afterCalls [OF init inv0])
  have fresh: "t \<notin> set before \<Longrightarrow> clients ?s t = None"
    using dom_afterCalls [of env before newClientManager]
    by (auto simp: newClientManager_def)
  obtain r s1 where
    call: "getClient env t ?s = (Inr (ClientRef r), s1)"
    and own: "clients s1 t = Some r" and bound: "r < length (heap s1)"
    and obj: "heap s1 ! r = ?cl"
    and first: "t \<notin> set before \<longrightarrow>
                  r = length (heap ?s) \<and> heap s1 = heap ?s @ [?cl] \<and>
                  clients s1 = (clients ?s)(t \<mapsto> r)"
  proof (cases "clients ?s t")
    case None
    from getClient_miss [OF init key None] that show ?thesis
      by simp
  next
    case (Some r)
    with inv have "r < length (heap ?s)" "heap ?s ! r = ?cl"
      by (simp_all add: cacheInv_def)
    with getClient_hit [OF Some, of env] Some fresh that show ?thesis
      by auto
  qed
  have later: "getClient env t (afterCalls env later s1) = (Inr (ClientRef r), afterCalls env later s1) \<and>
               heap (afterCalls env later s1) ! r = ?cl" for later
    using afterCalls_keeps [OF own bound, of env later] obj
    by (simp add: getClient_hit)
  from call own bound obj first later show ?thesis
    by simp
qed

text \<open>
  The claim as stated fails: with \<^verbatim>\<open>GOOGLE_CLIENT_ID\<close> unset the first call throws and
  caches nothing; and for the token \<^verbatim>\<open>constructor\<close> the lookup finds the member inherited
  from \<^verbatim>\<open>Object.prototype\<close>, so no client is made and the value returned is not a client.
\<close>

theorem getClient_unconfigured:
  "getClient emptyEnv ''ya29.token'' newClientManager =
     (Inl (JsError ''GOOGLE_CLIENT_ID environment variable is required''), newClientManager) \<and>
   getClient okEnv ''constructor'' newClientManager =
     (Inr (ObjectPrototypeMember ''constructor''), newClientManager)"
  by (simp add: getClient_def getProperty_def newClientManager_def initializeOAuth2Client_def
        emptyEnv_def okEnv_def objectPrototypeKeys_def)

text \<open>
  The theorem in a configured environment: the token \<^verbatim>\<open>ya29.a\<close> gets the second client
  that is made, and keeps it.
\<close>

theorem getClient_memoized_example:
  "GOOGLE_CLIENT_ID okEnv = Some ''id.apps.googleusercontent.com'' \<and>
   GOOGLE_CLIENT_SECRET okEnv = Some ''secret'' \<and>
   ''ya29.a'' \<notin> set objectPrototypeKeys \<and>
   fst (getClient okEnv ''ya29.a'' (afterCalls okEnv [''ya29.b''] newClientManager)) =
     Inr (ClientRef 1) \<and>
   fst (getClient okEnv ''ya29.a''
          (afterCalls okEnv [''ya29.b'', ''ya29.a'', ''ya29.c'', ''ya29.a''] newClientManager)) =
     Inr (ClientRef 1) \<and>
   map (\<lambda>c. access_token (credentials c))
     (heap (afterCalls okEnv [''ya29.b'', ''ya29.a'', ''ya29.c'', ''ya29.a''] newClientManager)) =
     [Some ''ya29.b'', Some ''ya29.a'', Some ''ya29.c'']"
  using getClient_memoized [of okEnv "''id.apps.googleusercontent.com''" "''secret''" "''ya29.a''" "[''ya29.b'']"]
  by (simp add: getClient_def getProperty_def newClientManager_def initializeOAuth2Client_def
        okEnv_def objectPrototypeKeys_def Let_def)

section \<open>The access token and the tool arguments\<close>

lemma deleteProperty_frame:
  "deleteProperty key obj key = None \<and> (\<forall>k. k \<noteq> key \<longrightarrow> deleteProperty key obj k = obj k)"
  by (simp add: deleteProperty_def)

lemma eventsDeleteParams_no_token: "eventsDeleteParams a ''accessToken'' = None"
  by (simp add: eventsDeleteParams_def restrict_map_def)

lemma runToolDeleteEvent_calls:
  assumes "parse args = Inr v"
  shows "manager (runToolDeleteEvent parse api env args m) = snd (getClient env (accessToken v) m) \<and>
         (case fst (getClient env (accessToken v) m) of
            Inl e \<Rightarrow> apiCalls (runToolDeleteEvent parse api env args m) = []
          | Inr c \<Rightarrow> apiCalls (runToolDeleteEvent parse api env args m) =
              [(\<lparr> apiMethod = ''calendar.events.delete'', auth = c,
                   params = eventsDeleteParams (deleteProperty ''accessToken'' (argsObject v)) \<rparr>,
                deleteProperty ''accessToken'' (argsObject v))])"
  using assms
  by (cases "getClient env (accessToken v) m")
     (auto simp: runToolDeleteEvent_def deleteEvent_def Let_def split: sum.splits)

lemma runToolListCalendars_calls:
  assumes "parse args = Inr v"
  shows "manager (runToolListCalendars parse api env args m) = snd (getClient env (accessToken v) m) \<and>
         (case fst (getClient env (accessToken v) m) of
            Inl e \<Rightarrow> apiCalls (runToolListCalendars parse api env args m) = []
          | Inr c \<Rightarrow> apiCalls (runToolListCalendars parse api env args m) =
              [(\<lparr> apiMethod = ''calendar.calendarList.list'', auth = c, params = Map.empty \<rparr>,
                deleteProperty ''accessToken'' (argsObject v))])"
  using assms
  by (cases "getClient env (accessToken v) m")
     (auto simp: runToolListCalendars_def listCalendars_def Let_def split: sum.splits)

lemma runToolListColors_calls:
  assumes "parse args = Inr v"
  shows "manager (runToolListColors parse api env args m) = snd (getClient env (accessToken v) m) \<and>
         (case fst (getClient env (accessToken v) m) of
            Inl e \<Rightarrow> apiCalls (runToolListColors parse api env args m) = []
          | Inr c \<Rightarrow> apiCalls (runToolListColors parse api env args m) =
              [(\<lparr> apiMethod = ''calendar.colors.get'', auth = c, params = Map.empty \<rparr>,
                deleteProperty ''accessToken'' (argsObject v))])"
  using assms
  by (cases "getClient env (accessToken v) m")
     (auto simp: runToolListColors_def listColors_def Let_def split: sum.splits option.splits)

lemma tokenRemoved_Nil: "tokenRemoved v []"
  by (simp add: tokenRemoved_def)

lemma tokenRemoved_single:
  "p ''accessToken'' = None \<Longrightarrow>
   tokenRemoved v [(\<lparr> apiMethod = n, auth = c, params = p \<rparr>, deleteProperty ''accessToken'' (argsObject v))]"
  by (simp add: tokenRemoved_def deleteProperty_def)

text \<open>
  Claim C10.  For the three handlers at hand (delete event, list calendars, list
  colors) and arguments that pass the schema: at every call of the Calendar API the
  validated argument object has no \<^verbatim>\<open>accessToken\<close> property and agrees with the validated
  arguments on every other property, and the parameter object of the call has no
  \<^verbatim>\<open>accessToken\<close> property either (\<open>tokenRemoved\<close>).  The token goes to
  \<^verbatim>\<open>getClient\<close>, whose client is the one the API call is made with.
\<close>

theorem runTool_removes_accessToken:
  assumes "parse args = Inr v"
  shows "tokenRemoved v (apiCalls (runToolDeleteEvent parse api1 env args m)) \<and>
         tokenRemoved v (apiCalls (runToolListCalendars parse api2 env args m)) \<and>
         tokenRemoved v (apiCalls (runToolListColors parse api3 env args m)) \<and>
         manager (runToolDeleteEvent parse api1 env args m) = snd (getClient env (accessToken v) m) \<and>
         manager (runToolListCalendars parse api2 env args m) = snd (getClient env (accessToken v) m) \<and>
         manager (runToolListColors parse api3 env args m) = snd (getClient env (accessToken v) m) \<and>
         (\<forall>c. fst (getClient env (accessToken v) m) = Inr c \<longrightarrow>
            map (\<lambda>(call, validArgs). (auth call, validArgs))
              (apiCalls (runToolDeleteEvent parse api1 env args m)) =
              [(c, deleteProperty ''accessToken'' (argsObject v))] \<and>
            map (\<lambda>(call, validArgs). (auth call, validArgs))
              (apiCalls (runToolListCalendars parse api2 env args m)) =
              [(c, deleteProperty ''accessToken'' (argsObject v))] \<and>
            map (\<lambda>(call, validArgs). (auth call, validArgs))
              (apiCalls (runToolListColors parse api3 env args m)) =
              [(c, deleteProperty ''accessToken'' (argsObject v))])"
proof -
  note d = runToolDeleteEvent_calls [of parse args v api1 env m, OF assms]
  note l = runToolListCalendars_calls [of parse args v api2 env m, OF assms]
  note c = runToolListColors_calls [of parse args v api3 env m, OF assms]
  have "tokenRemoved v (apiCalls (runToolDeleteEvent parse api1 env args m))"
    using d by (auto split: sum.splits simp: tokenRemoved_Nil tokenRemoved_single eventsDeleteParams_no_token)
  moreover have "tokenRemoved v (apiCalls (runToolListCalendars parse api2 env args m))"
    using l by (auto split: sum.splits simp: tokenRemoved_Nil tokenRemoved_single)
  moreover have "tokenRemoved v (apiCalls (runToolListColors parse api3 env args m))"
    using c by (auto split: sum.splits simp: tokenRemoved_Nil tokenRemoved_single)
  moreover have "fst (getClient env (accessToken v) m) = Inr c \<Longrightarrow>
      map (\<lambda>(call, validArgs). (auth call, validArgs))
        (apiCalls (runToolDeleteEvent parse api1 env args m)) =
        [(c, deleteProperty ''accessToken'' (argsObject v))] \<and>
      map (\<lambda>(call, validArgs). (auth call, validArgs))
        (apiCalls (runToolListCalendars parse api2 env args m)) =
        [(c, deleteProperty ''accessToken'' (argsObject v))] \<and>
      map (\<lambda>(call, validArgs). (auth call, validArgs))
        (apiCalls (runToolListColors parse api3 env args m)) =
        [(c, deleteProperty ''accessToken'' (argsObject v))]" for c
    using d l c by simp
  ultimately show ?thesis
    using d l c by blast
qed

text \<open>
  The theorem at a delete-event call: one API call, made with the first client, whose
  parameters and whose argument object hold the calendar and the event but no token.
\<close>

theorem runTool_removes_accessToken_example:
  "(\<lambda>raw :: unit. Inr sampleDeleteArgs :: js_thrown + ValidatedArgs) () = Inr sampleDeleteArgs \<and>
   map (\<lambda>(call, validArgs).
          (apiMethod call, auth call,
           map (params call) [''accessToken'', ''calendarId'', ''eventId''],
           map validArgs [''accessToken'', ''calendarId'', ''eventId'']))
     (apiCalls (runToolDeleteEvent (\<lambda>raw :: unit. Inr sampleDeleteArgs) (\<lambda>c. Inr ())
                  okEnv () newClientManager)) =
     [(''calendar.events.delete'', ClientRef 0,
       [None, Some ''primary'', Some ''ev1''],
       [None, Some ''primary'', Some ''ev1''])] \<and>
   tokenRemoved sampleDeleteArgs
     (apiCalls (runToolDeleteEvent (\<lambda>raw :: unit. Inr sampleDeleteArgs) (\<lambda>c. Inr ())
                  okEnv () newClientManager))"
  using runTool_removes_accessToken
    [of "\<lambda>raw :: unit. Inr sampleDeleteArgs" "()" sampleDeleteArgs "\<lambda>c. Inr ()" okEnv
        newClientManager "\<lambda>c. Inr None" "\<lambda>c. Inr None"]
  by (simp add: runToolDeleteEvent_def deleteEvent_def getClient_def getProperty_def
        newClientManager_def initializeOAuth2Client_def okEnv_def objectPrototypeKeys_def
        sampleDeleteArgs_def argsObject_def deleteProperty_def eventsDeleteParams_def
        restrict_map_def Let_def)

section \<open>Merging the batch responses\<close>

lemma at_index_append: "at_index (pre @ c # cs) (length pre) = Some c"
  by (induction pre) simp_all

lemma processResponse_contribution:
  assumes "at_index calendarIds index = Some cid"
  shows "processResponse calendarIds response index acc =
           \<lparr> allEvents = allEvents acc @ eventsOf cid response,
             errors = errors acc @ errorsOf cid response \<rparr>"
  using assms
  by (cases "items (body response)") (simp_all add: processResponse_def eventsOf_def errorsOf_def Let_def)

lemma forEachResponse_contributions:
  assumes "length cs = length responses"
  shows "forEachResponse (pre @ cs) (length pre) responses acc =
           \<lparr> allEvents = allEvents acc @ concat (map (\<lambda>(cid, r). eventsOf cid r) (zip cs responses)),
             errors = errors acc @ concat (map (\<lambda>(cid, r). errorsOf cid r) (zip cs responses)) \<rparr>"
  using assms
proof (induction responses arbitrary: pre cs acc)
  case Nil
  then show ?case by simp
next
  case (Cons r rest)
  then obtain c cs' where cs: "cs = c # cs'" and len: "length cs' = length rest"
    by (cases cs) auto
  have step: "processResponse (pre @ c # cs') r (length pre) acc =
                \<lparr> allEvents = allEvents acc @ eventsOf c r, errors = errors acc @ errorsOf c r \<rparr>"
    by (rule processResponse_contribution [OF at_index_append])
  from Cons.IH [OF len, of "pre @ [c]"]
  have "forEachResponse (pre @ c # cs') (Suc (length pre)) rest acc' =
          \<lparr> allEvents = allEvents acc' @ concat (map (\<lambda>(cid, r). eventsOf cid r) (zip cs' rest)),
            errors = errors acc' @ concat (map (\<lambda>(cid, r). errorsOf cid r) (zip cs' rest)) \<rparr>" for acc'
    by simp
  with step cs show ?case by simp
qed

lemma mergeResponses_contributions:
  assumes "length calendarIds = length subResponses"
  shows "mergeResponses calendarIds subResponses =
           \<lparr> allEvents = concat (map (\<lambda>(cid, r). eventsOf cid r) (zip calendarIds subResponses)),
             errors = concat (map (\<lambda>(cid, r). errorsOf cid r) (zip calendarIds subResponses)) \<rparr>"
  using forEachResponse_contributions [OF assms, of "[]" "\<lparr> allEvents = [], errors = [] \<rparr>"]
  by (simp add: mergeResponses_def)

text \<open>
  Claim C1, amended.  For calendar ids and sub-responses of equal length, the events of
  the outcome are, in input order, the items of the positions whose status code is 200
  and whose body has an items list, each tagged with the calendar id of its position
  (\<open>eventsOf\<close>); every other position gives exactly one error entry with its calendar
  id and its body (\<open>errorsOf\<close>).  Replacing the response of one position by a failing
  one removes the events of that position only.
\<close>

theorem mergeResponses_partial_failure:
  assumes "length calendarIds = length subResponses"
  shows "allEvents (mergeResponses calendarIds subResponses) =
           concat (map (\<lambda>(cid, r). eventsOf cid r) (zip calendarIds subResponses)) \<and>
         errors (mergeResponses calendarIds subResponses) =
           concat (map (\<lambda>(cid, r). errorsOf cid r) (zip calendarIds subResponses)) \<and>
         (\<forall>j failing. j < length subResponses \<and> eventsOf (calendarIds ! j) failing = [] \<longrightarrow>
            allEvents (mergeResponses calendarIds (subResponses[j := failing])) =
              concat ((map (\<lambda>(cid, r). eventsOf cid r) (zip calendarIds subResponses))[j := []]))"
proof -
  have "allEvents (mergeResponses calendarIds (subResponses[j := failing])) =
          concat ((map (\<lambda>(cid, r). eventsOf cid r) (zip calendarIds subResponses))[j := []])"
    if j: "j < length subResponses" and f: "eventsOf (calendarIds ! j) failing = []" for j failing
  proof -
    have "length calendarIds = length (subResponses[j := failing])"
      using assms by simp
    from mergeResponses_contributions [OF this]
    have "allEvents (mergeResponses calendarIds (subResponses[j := failing])) =
            concat (map (\<lambda>(cid, r). eventsOf cid r) (zip calendarIds (subResponses[j := failing])))"
      by simp
    also have "zip calendarIds (subResponses[j := failing]) =
                 (zip calendarIds subResponses)[j := (calendarIds ! j, failing)]"
      by (simp add: zip_update [symmetric])
    also have "map (\<lambda>(cid, r). eventsOf cid r) \<dots> =
                 (map (\<lambda>(cid, r). eventsOf cid r) (zip calendarIds subResponses))[j := []]"
      using f by (simp add: map_update)
    finally show ?thesis .
  qed
  with mergeResponses_contributions [OF assms] show ?thesis
    by simp
qed

text \<open>
  The theorem at three calendars whose second sub-response is a 404: the events come
  from the first and the third calendar, and the one error entry is the second's.
\<close>

theorem mergeResponses_three_calendars:
  "length [''primary'', ''missing@example.com'', ''work@example.com''] =
     length [itemsResponse 200 [timedEvent ''e1'' ''2024-01-15T09:00:00Z''],
             errorResponse 404 ''Calendar not found'',
             itemsResponse 200 [timedEvent ''e3'' ''2024-01-15T08:00:00Z'']] \<and>
   mergeResponses [''primary'', ''missing@example.com'', ''work@example.com'']
     [itemsResponse 200 [timedEvent ''e1'' ''2024-01-15T09:00:00Z''],
      errorResponse 404 ''Calendar not found'',
      itemsResponse 200 [timedEvent ''e3'' ''2024-01-15T08:00:00Z'']] =
     \<lparr> allEvents =
         [(timedEvent ''e1'' ''2024-01-15T09:00:00Z'')\<lparr> calendarId := Some ''primary'' \<rparr>,
          (timedEvent ''e3'' ''2024-01-15T08:00:00Z'')\<lparr> calendarId := Some ''work@example.com'' \<rparr>],
       errors =
         [\<lparr> errorCalendarId = Some ''missing@example.com'',
            errorBody = body (errorResponse 404 ''Calendar not found'') \<rparr>] \<rparr>"
  using mergeResponses_partial_failure [of "[''primary'', ''missing@example.com'', ''work@example.com'']"
      "[itemsResponse 200 [timedEvent ''e1'' ''2024-01-15T09:00:00Z''],
        errorResponse 404 ''Calendar not found'',
        itemsResponse 200 [timedEvent ''e3'' ''2024-01-15T08:00:00Z'']]"]
  by (simp add: mergeResponses_def processResponse_def itemsResponse_def errorResponse_def
        tagEvent_def eventsOf_def errorsOf_def)

text \<open>
  The claim as stated fails for a status code in 200-299 other than 200: a response with
  status 201 and an items list gives no events and one error entry.
\<close>

theorem mergeResponses_status_201:
  "mergeResponses [''primary''] [itemsResponse 201 [timedEvent ''e1'' ''2024-01-15T09:00:00Z'']] =
     \<lparr> allEvents = [],
       errors = [\<lparr> errorCalendarId = Some ''primary'',
                  errorBody = body (itemsResponse 201 [timedEvent ''e1'' ''2024-01-15T09:00:00Z'']) \<rparr>] \<rparr>"
  by (simp add: mergeResponses_def processResponse_def itemsResponse_def)

section \<open>Sorting the merged events\<close>

lemma set_insertBy: "set (insertBy compare x ys) = insert x (set ys)"
  by (induction ys) auto

lemma mset_insertBy: "mset (insertBy compare x ys) = add_mset x (mset ys)"
  by (induction ys) auto

lemma mset_arraySort: "mset (arraySort compare xs) = mset xs"
  by (induction xs) (simp_all add: arraySort_def mset_insertBy)

lemma consistent_total:
  assumes "consistentComparator compare" "\<not> compare a b \<le> 0"
  shows "compare b a \<le> 0"
proof -
  from assms(2) have "0 < compare a b" by simp
  with assms(1) have "compare b a < 0" by (simp add: consistentComparator_def)
  then show ?thesis by simp
qed

lemma consistent_trans:
  assumes "consistentComparator compare" "compare a b \<le> 0" "compare b c \<le> 0"
  shows "compare a c \<le> 0"
  using assms unfolding consistentComparator_def by blast

lemma consistent_sym_zero:
  assumes "consistentComparator compare" "compare a b = 0"
  shows "compare b a = 0"
proof -
  from assms(1) have flip: "(compare x y < 0) = (0 < compare y x)" for x y
    by (simp add: consistentComparator_def)
  from flip [of a b] flip [of b a] assms(2) show ?thesis by simp
qed

lemma consistent_equal_class:
  assumes c: "consistentComparator compare"
    and "compare x k = 0" "compare y k = 0"
  shows "compare x y \<le> 0"
proof -
  from consistent_sym_zero [OF c assms(3)] have "compare k y \<le> 0" by simp
  with consistent_trans [OF c, of x k y] assms(2) show ?thesis by simp
qed

lemma sorted_wrt_insertBy:
  assumes c: "consistentComparator compare"
    and s: "sorted_wrt (\<lambda>a b. compare a b \<le> 0) ys"
  shows "sorted_wrt (\<lambda>a b. compare a b \<le> 0) (insertBy compare x ys)"
  using s
proof (induction ys)
  case Nil
  then show ?case by simp
next
  case (Cons y ys)
  show ?case
  proof (cases "compare x y \<le> 0")
    case True
    have "compare x z \<le> 0" if "z \<in> set ys" for z
      using Cons.prems that consistent_trans [OF c True, of z] by auto
    with True Cons.prems show ?thesis by simp
  next
    case False
    from consistent_total [OF c False] have "compare y x \<le> 0" .
    with False Cons show ?thesis
      by (auto simp: set_insertBy)
  qed
qed

lemma sorted_wrt_arraySort:
  assumes "consistentComparator compare"
  shows "sorted_wrt (\<lambda>a b. compare a b \<le> 0) (arraySort compare xs)"
  by (induction xs) (simp_all add: arraySort_def sorted_wrt_insertBy [OF assms])

lemma filter_insertBy_other:
  "\<not> P x \<Longrightarrow> filter P (insertBy compare x ys) = filter P ys"
  by (induction ys) auto

lemma filter_insertBy_class:
  assumes "P x" and "\<And>y. P y \<Longrightarrow> compare x y \<le> 0"
  shows "filter P (insertBy compare x ys) = x # filter P ys"
  using assms by (induction ys) auto

lemma filter_arraySort_class:
  assumes cls: "\<And>x y. P x \<Longrightarrow> P y \<Longrightarrow> compare x y \<le> 0"
  shows "filter P (arraySort compare xs) = filter P xs"
proof (induction xs)
  case Nil
  then show ?case by (simp add: arraySort_def)
next
  case (Cons x xs)
  have unfold: "arraySort compare (x # xs) = insertBy compare x (arraySort compare xs)"
    by (simp add: arraySort_def)
  show ?case
  proof (cases "P x")
    case True
    have "filter P (insertBy compare x (arraySort compare xs)) =
            x # filter P (arraySort compare xs)"
      by (rule filter_insertBy_class) (use True cls in auto)
    with Cons True unfold show ?thesis by simp
  next
    case False
    with Cons unfold show ?thesis
      by (simp add: filter_insertBy_other)
  qed
qed

lemma consistent_compareStart:
  assumes "consistentComparator localeCompare"
  shows "consistentComparator (compareStart localeCompare)"
  using assms unfolding consistentComparator_def compareStart_def by blast

lemma startKey_date_only:
  "eventStart a = Some \<lparr> dateTime = None, date = Some d \<rparr> \<Longrightarrow> startKey a = d"
  by (simp add: startKey_def orElse_def)

lemma startKey_dateTime:
  "eventStart b = Some s \<Longrightarrow> dateTime s = Some t \<Longrightarrow> t \<noteq> [] \<Longrightarrow> startKey b = t"
  by (simp add: startKey_def orElse_def)

lemma placedBefore_sorted_wrt:
  assumes c: "consistentComparator compare"
    and s: "sorted_wrt (\<lambda>a b. compare a b \<le> 0) xs"
    and lt: "compare a b < 0"
  shows "placedBefore a b xs"
  unfolding placedBefore_def
proof (intro allI impI)
  fix i j
  assume i: "i < length xs" and j: "j < length xs" and eq: "xs ! i = a \<and> xs ! j = b"
  from c lt have gt: "0 < compare b a"
    by (simp add: consistentComparator_def)
  show "i < j"
  proof (rule ccontr)
    assume "\<not> i < j"
    then consider "j < i" | "j = i" by linarith
    then show False
    proof cases
      case 1
      with s i have "compare (xs ! j) (xs ! i) \<le> 0"
        by (simp add: sorted_wrt_iff_nth_less)
      with eq gt show False by simp
    next
      case 2
      with eq have "a = b" by auto
      with c lt show False by (simp add: consistentComparator_def)
    qed
  qed
qed

text \<open>
  Claim C2, amended.  Let \<^verbatim>\<open>localeCompare\<close> be any consistent comparator, as the
  language standard requires of the runtime's.  The sorted list is ordered by
  \<open>startKey\<close>, which is \<^verbatim>\<open>start.dateTime\<close> if present and not empty, else
  \<^verbatim>\<open>start.date\<close> if present and not empty, else the empty string, in the order of
  \<^verbatim>\<open>localeCompare\<close>; it is a permutation of the input; and the events whose keys compare
  equal to a given key keep their input order.  Hence an event that has only
  \<^verbatim>\<open>start.date\<close>, equal to \<open>d\<close>, is placed before every event whose \<^verbatim>\<open>start.dateTime\<close>
  is \<open>d\<close> followed by a time part, whenever \<^verbatim>\<open>localeCompare\<close> ranks \<open>d\<close> before that
  date-time.
\<close>

theorem sortEvents_stable_by_start:
  assumes "consistentComparator localeCompare"
  shows "sorted_wrt (\<lambda>a b. localeCompare (startKey a) (startKey b) \<le> 0)
           (sortEvents localeCompare evs) \<and>
         mset (sortEvents localeCompare evs) = mset evs \<and>
         (\<forall>k. filter (\<lambda>e. localeCompare (startKey e) k = 0) (sortEvents localeCompare evs) =
               filter (\<lambda>e. localeCompare (startKey e) k = 0) evs) \<and>
         (\<forall>a b s d rest.
            eventStart a = Some \<lparr> dateTime = None, date = Some d \<rparr> \<and>
            eventStart b = Some s \<and> dateTime s = Some (d @ rest) \<and>
            localeCompare d (d @ rest) < 0 \<longrightarrow>
            placedBefore a b (sortEvents localeCompare evs))"
proof -
  note c = consistent_compareStart [OF assms]
  have srt: "sorted_wrt (\<lambda>a b. compareStart localeCompare a b \<le> 0) (sortEvents localeCompare evs)"
    unfolding sortEvents_def by (rule sorted_wrt_arraySort [OF c])
  have stable: "filter (\<lambda>e. localeCompare (startKey e) k = 0) (sortEvents localeCompare evs) =
                filter (\<lambda>e. localeCompare (startKey e) k = 0) evs" for k
    unfolding sortEvents_def
    by (rule filter_arraySort_class)
       (simp add: compareStart_def consistent_equal_class [OF assms])
  have first: "placedBefore a b (sortEvents localeCompare evs)"
    if "eventStart a = Some \<lparr> dateTime = None, date = Some d \<rparr>"
      "eventStart b = Some s" "dateTime s = Some (d @ rest)"
      "localeCompare d (d @ rest) < 0" for a b s d rest
  proof -
    have "d @ rest \<noteq> []"
      using that(4) assms by (auto simp: consistentComparator_def)
    with that have "startKey a = d" "startKey b = d @ rest"
      by (simp_all add: startKey_date_only startKey_dateTime)
    with that(4) have "compareStart localeCompare a b < 0"
      by (simp add: compareStart_def)
    with c srt show ?thesis by (rule placedBefore_sorted_wrt)
  qed
  from srt stable first show ?thesis
    by (simp add: compareStart_def sortEvents_def mset_arraySort)
qed

lemma consistent_collationCompare: "consistentComparator collationCompare"
  unfolding consistentComparator_def collationCompare_def
  by (auto split: if_splits)

text \<open>
  The theorem at the all-day event of 2024-01-15 and an event at 09:00 of that day,
  with the collation of the runtime as the comparator.
\<close>

theorem sortEvents_all_day_first:
  "consistentComparator collationCompare \<and>
   eventStart (allDayEvent ''a'' ''2024-01-15'') =
     Some \<lparr> dateTime = None, date = Some ''2024-01-15'' \<rparr> \<and>
   eventStart (timedEvent ''b'' (''2024-01-15'' @ ''T09:00:00Z'')) =
     Some \<lparr> dateTime = Some (''2024-01-15'' @ ''T09:00:00Z''), date = None \<rparr> \<and>
   collationCompare ''2024-01-15'' (''2024-01-15'' @ ''T09:00:00Z'') < 0 \<and>
   sortEvents collationCompare
     [timedEvent ''b'' ''2024-01-15T09:00:00Z'', allDayEvent ''a'' ''2024-01-15''] =
     [allDayEvent ''a'' ''2024-01-15'', timedEvent ''b'' ''2024-01-15T09:00:00Z''] \<and>
   placedBefore (allDayEvent ''a'' ''2024-01-15'') (timedEvent ''b'' ''2024-01-15T09:00:00Z'')
     (sortEvents collationCompare
        [timedEvent ''b'' ''2024-01-15T09:00:00Z'', allDayEvent ''a'' ''2024-01-15''])"
proof -
  have lt: "collationCompare ''2024-01-15'' (''2024-01-15'' @ ''T09:00:00Z'') < 0"
    by (simp add: collationCompare_def collationRank_def)
  have a: "eventStart (allDayEvent ''a'' ''2024-01-15'') =
             Some \<lparr> dateTime = None, date = Some ''2024-01-15'' \<rparr>"
    by (simp add: allDayEvent_def)
  have b: "eventStart (timedEvent ''b'' (''2024-01-15'' @ ''T09:00:00Z'')) =
             Some \<lparr> dateTime = Some (''2024-01-15'' @ ''T09:00:00Z''), date = None \<rparr>"
    by (simp add: timedEvent_def)
  have srt: "sortEvents collationCompare
               [timedEvent ''b'' ''2024-01-15T09:00:00Z'', allDayEvent ''a'' ''2024-01-15''] =
             [allDayEvent ''a'' ''2024-01-15'', timedEvent ''b'' ''2024-01-15T09:00:00Z'']"
    by (simp add: sortEvents_def arraySort_def compareStart_def collationCompare_def
          collationRank_def startKey_def orElse_def timedEvent_def allDayEvent_def)
  note all_day = sortEvents_stable_by_start [OF consistent_collationCompare,
      of "[timedEvent ''b'' ''2024-01-15T09:00:00Z'', allDayEvent ''a'' ''2024-01-15'']",
      THEN conjunct2, THEN conjunct2, THEN conjunct2, rule_format,
      of "allDayEvent ''a'' ''2024-01-15''" "''2024-01-15''"
         "timedEvent ''b'' (''2024-01-15'' @ ''T09:00:00Z'')"
         "\<lparr> dateTime = Some (''2024-01-15'' @ ''T09:00:00Z''), date = None \<rparr>"
         "''T09:00:00Z''"]
  have "placedBefore (allDayEvent ''a'' ''2024-01-15'')
          (timedEvent ''b'' (''2024-01-15'' @ ''T09:00:00Z''))
          (sortEvents collationCompare
             [timedEvent ''b'' ''2024-01-15T09:00:00Z'', allDayEvent ''a'' ''2024-01-15''])"
    by (rule all_day) (use a b lt in simp)
  with consistent_collationCompare a b lt srt show ?thesis
    by simp
qed

text \<open>
  The claim as stated fails twice.  Two events at the same local time with the offsets
  \<^verbatim>\<open>+05:00\<close> and \<^verbatim>\<open>-05:00\<close> are sorted with \<^verbatim>\<open>-05:00\<close> first, since the collation
  ranks \<^verbatim>\<open>-\<close> before \<^verbatim>\<open>+\<close>: the keys of the result are not in lexicographic order.  And
  when \<^verbatim>\<open>start.dateTime\<close> is present and empty the code sorts by \<^verbatim>\<open>start.date\<close>, so
  the result is not ordered by the key of the claim.
\<close>

theorem sortEvents_not_lexicographic:
  "sortEvents collationCompare
     [timedEvent ''p'' ''2024-01-15T10:00:00+05:00'', timedEvent ''m'' ''2024-01-15T10:00:00-05:00''] =
     [timedEvent ''m'' ''2024-01-15T10:00:00-05:00'', timedEvent ''p'' ''2024-01-15T10:00:00+05:00''] \<and>
   \<not> sorted (map presentKey
     (sortEvents collationCompare
        [timedEvent ''p'' ''2024-01-15T10:00:00+05:00'',
         timedEvent ''m'' ''2024-01-15T10:00:00-05:00''])) \<and>
   sortEvents collationCompare
     [emptyDateTimeEvent ''x'' ''2024-01-15'', allDayEvent ''y'' ''2024-01-01''] =
     [allDayEvent ''y'' ''2024-01-01'', emptyDateTimeEvent ''x'' ''2024-01-15''] \<and>
   map presentKey
     (sortEvents collationCompare
        [emptyDateTimeEvent ''x'' ''2024-01-15'', allDayEvent ''y'' ''2024-01-01'']) =
     [''2024-01-01'', ''''] \<and>
   \<not> sorted_wrt (\<lambda>a b. collationCompare (presentKey a) (presentKey b) \<le> 0)
     (sortEvents collationCompare
        [emptyDateTimeEvent ''x'' ''2024-01-15'', allDayEvent ''y'' ''2024-01-01''])"
  by (simp add: sortEvents_def arraySort_def compareStart_def collationCompare_def
        collationRank_def startKey_def orElse_def presentKey_def timedEvent_def
        emptyDateTimeEvent_def allDayEvent_def)

section \<open>The batch request body\<close>










end
